theory Spec2Isabelle
  imports Complex_Main "HOL-Library.AList"
begin

section \<open>JavaScript values, numbers and plain objects\<close>

text \<open>
  The analytics functions of the handler (\<^verbatim>\<open>processTickets\<close>,
  \<^verbatim>\<open>calculateSeverityDistribution\<close>, \<^verbatim>\<open>calculateResolutionTimes\<close>,
  \<^verbatim>\<open>calculateSLACompliance\<close>, \<^verbatim>\<open>storeMetrics\<close>) work on plain JavaScript
  objects whose properties hold numbers. A JavaScript number is modelled as an exact
  rational or \<open>NaN\<close>: the IEEE rounding of doubles is not modelled, and neither are
  \<open>Infinity\<close> and \<open>-0\<close> (every division of the source by a computed value
  stands behind a \<^verbatim>\<open>> 0\<close> test of the divisor, which the model keeps).

  A property read on a plain object falls back to \<^verbatim>\<open>Object.prototype\<close> when the object
  has no own property of that name, so \<^verbatim>\<open>distribution['constructor']\<close> is a function
  and not \<^verbatim>\<open>undefined\<close>. \<open>Inherited k\<close> is the function or object found under the
  inherited name \<open>k\<close>; \<open>Text\<close> is a string that begins with the source text of
  such a function (the result of \<^verbatim>\<open>+=\<close> on it), whose characters are not modelled
  and which never reads as a number.
\<close>

datatype jsnum = Fin rat | NaN

datatype jsval = Undefined | Number jsnum | Inherited string | Text

type_synonym obj = "(string \<times> jsval) list"

definition objectPrototypeKeys :: "string list" where
  "objectPrototypeKeys =
     [''constructor'', ''__defineGetter__'', ''__defineSetter__'', ''hasOwnProperty'',
      ''__lookupGetter__'', ''__lookupSetter__'', ''isPrototypeOf'',
      ''propertyIsEnumerable'', ''toString'', ''valueOf'', ''__proto__'',
      ''toLocaleString'']"

definition getProp :: "obj \<Rightarrow> string \<Rightarrow> jsval" where
  \<comment> \<open>\<^verbatim>\<open>o[k]\<close>: the own property, else the one inherited from \<^verbatim>\<open>Object.prototype\<close>.\<close>
  "getProp ob k =
     (case map_of ob k of
        Some v \<Rightarrow> v
      | None \<Rightarrow> if k \<in> set objectPrototypeKeys then Inherited k else Undefined)"

definition setProp :: "obj \<Rightarrow> string \<Rightarrow> jsval \<Rightarrow> obj" where
  \<comment> \<open>\<^verbatim>\<open>o[k] = v\<close> for a primitive \<open>v\<close>: the own property is written in place or
      appended (insertion order); the \<^verbatim>\<open>__proto__\<close> setter ignores a primitive.\<close>
  "setProp ob k v = (if k = ''__proto__'' then ob else AList.update k v ob)"

definition objectKeys :: "obj \<Rightarrow> string list" where
  "objectKeys ob = map fst ob"

fun toNumber :: "jsval \<Rightarrow> jsnum" where
  "toNumber (Number n) = n"
| "toNumber Undefined = NaN"
| "toNumber (Inherited k) = NaN"
| "toNumber Text = NaN"

fun numAdd :: "jsnum \<Rightarrow> jsnum \<Rightarrow> jsnum" where
  "numAdd (Fin x) (Fin y) = Fin (x + y)"
| "numAdd _ _ = NaN"

fun numMul :: "jsnum \<Rightarrow> jsnum \<Rightarrow> jsnum" where
  "numMul (Fin x) (Fin y) = Fin (x * y)"
| "numMul _ _ = NaN"

fun numDiv :: "jsnum \<Rightarrow> jsnum \<Rightarrow> jsnum" where
  \<comment> \<open>The divisor is never zero where the source divides; \<open>NaN\<close> stands there.\<close>
  "numDiv (Fin x) (Fin y) = (if y = 0 then NaN else Fin (x / y))"
| "numDiv _ _ = NaN"

fun numLe :: "jsnum \<Rightarrow> jsnum \<Rightarrow> bool" where
  "numLe (Fin x) (Fin y) = (x \<le> y)"
| "numLe _ _ = False"

fun numGt :: "jsnum \<Rightarrow> jsnum \<Rightarrow> bool" where
  "numGt (Fin x) (Fin y) = (x > y)"
| "numGt _ _ = False"

definition jsIncr :: "jsval \<Rightarrow> jsval" where
  \<comment> \<open>The value stored by \<^verbatim>\<open>o[k]++\<close>.\<close>
  "jsIncr v = Number (numAdd (toNumber v) (Fin 1))"

fun jsPlus :: "jsval \<Rightarrow> jsnum \<Rightarrow> jsval" where
  \<comment> \<open>\<^verbatim>\<open>v + h\<close> for a number \<open>h\<close>: a function or a string on the left makes it a
      string concatenation.\<close>
  "jsPlus (Inherited k) h = Text"
| "jsPlus Text h = Text"
| "jsPlus v h = Number (numAdd (toNumber v) h)"

definition toFixed1 :: "rat \<Rightarrow> rat" where
  \<comment> \<open>\<^verbatim>\<open>parseFloat(x.toFixed(1))\<close> on a finite \<open>x\<close>: the magnitude is rounded to the
      nearest tenth, a tie upwards; from \<open>10\<^sup>2\<^sup>1\<close> on \<^verbatim>\<open>toFixed\<close> prints the number
      itself.\<close>
  "toFixed1 x =
     (if 10 ^ 21 \<le> \<bar>x\<bar> then x
      else if x < 0 then - (of_int \<lfloor>(- x) * 10 + 1 / 2\<rfloor> / 10)
      else of_int \<lfloor>x * 10 + 1 / 2\<rfloor> / 10)"

fun parseFloatToFixed1 :: "jsnum \<Rightarrow> jsnum" where
  "parseFloatToFixed1 (Fin x) = Fin (toFixed1 x)"
| "parseFloatToFixed1 NaN = NaN"

definition lowerChar :: "char \<Rightarrow> char" where
  "lowerChar c =
     (let n = (of_char c :: nat) in if 65 \<le> n \<and> n \<le> 90 then char_of (n + 32) else c)"

definition toLowerCase :: "string \<Rightarrow> string" where
  \<comment> \<open>The letters A to Z are lower-cased. A character outside ASCII is left as it is:
      none lower-cases to an ASCII letter that occurs in a property name read here.\<close>
  "toLowerCase s = map lowerChar s"

definition propertyKey :: "string option \<Rightarrow> string" where
  \<comment> \<open>The property name a value is used as: \<^verbatim>\<open>undefined\<close> reads the name "undefined".\<close>
  "propertyKey v = (case v of None \<Rightarrow> ''undefined'' | Some s \<Rightarrow> s)"

section \<open>Tickets and metrics\<close>

text \<open>
  A ticket is a JSON object: \<^verbatim>\<open>severity\<close> and \<^verbatim>\<open>status\<close> are strings or absent
  (\<open>None\<close>). A date field \<open>v\<close> is kept as what the code reads of it: whether \<open>v\<close>
  is falsy (absent, null or the empty string) and, when it is not, the time value of
  \<^verbatim>\<open>new Date(v)\<close> in milliseconds, \<open>None\<close> for an Invalid Date.
\<close>

datatype date_field = Falsy | Truthy "int option"

record ticket =
  ticket_id :: string
  severity :: "string option"
  status :: "string option"
  createdDate :: date_field
  resolvedDate :: date_field

record request =
  projectId :: string
  tickets :: "ticket list"

text \<open>
  \<^verbatim>\<open>timestamp\<close> is the ISO-8601 rendering of the clock reading; the model keeps the
  reading itself (milliseconds since the epoch), of which the rendering is injective.
\<close>

record metrics =
  projectId :: string
  timestamp :: int
  severityDistribution :: obj
  averageResolutionTimes :: obj
  slaCompliance :: obj
  ticketCount :: nat
  openTickets :: nat
  resolvedTickets :: nat

definition zeroBuckets :: obj where
  \<comment> \<open>\<^verbatim>\<open>{ low: 0, medium: 0, high: 0, critical: 0 }\<close>\<close>
  "zeroBuckets =
     [(''low'', Number (Fin 0)), (''medium'', Number (Fin 0)),
      (''high'', Number (Fin 0)), (''critical'', Number (Fin 0))]"

definition severityKey :: "ticket \<Rightarrow> string" where
  \<comment> \<open>\<^verbatim>\<open>ticket.severity?.toLowerCase()\<close>, as a property name.\<close>
  "severityKey t = propertyKey (map_option toLowerCase (severity t))"

subsection \<open>calculateSeverityDistribution\<close>

definition countSeverity :: "obj \<Rightarrow> ticket \<Rightarrow> obj" where
  "countSeverity distribution t =
     (let sev = severityKey t in
      if getProp distribution sev \<noteq> Undefined
      then setProp distribution sev (jsIncr (getProp distribution sev))
      else distribution)"

definition toPercentage :: "nat \<Rightarrow> obj \<Rightarrow> string \<Rightarrow> obj" where
  "toPercentage n_total distribution key =
     setProp distribution key
       (if n_total > 0
        then Number (parseFloatToFixed1
               (numMul (numDiv (toNumber (getProp distribution key)) (Fin (of_nat n_total)))
                  (Fin 100)))
        else Number (Fin 0))"

definition calculateSeverityDistribution :: "ticket list \<Rightarrow> obj" where
  "calculateSeverityDistribution ts =
     (let distribution = foldl countSeverity zeroBuckets ts
      in foldl (toPercentage (length ts)) distribution (objectKeys distribution))"

subsection \<open>calculateResolutionTimes\<close>

definition hoursBetween :: "int option \<Rightarrow> int option \<Rightarrow> jsnum" where
  \<comment> \<open>\<^verbatim>\<open>(resolved - created) / (1000 * 60 * 60)\<close> on the two time values.\<close>
  "hoursBetween created resolved =
     (case created of
        None \<Rightarrow> NaN
      | Some c \<Rightarrow>
          (case resolved of
             None \<Rightarrow> NaN
           | Some r \<Rightarrow> Fin (of_int (r - c) / (1000 * 60 * 60))))"

definition addResolution :: "obj \<times> obj \<Rightarrow> ticket \<Rightarrow> obj \<times> obj" where
  "addResolution acc t =
     (case acc of (resolutionTimes, counts) \<Rightarrow>
        (case createdDate t of
           Falsy \<Rightarrow> acc
         | Truthy created \<Rightarrow>
             (case resolvedDate t of
                Falsy \<Rightarrow> acc
              | Truthy resolved \<Rightarrow>
                  (let sev = severityKey t in
                   if getProp resolutionTimes sev \<noteq> Undefined
                   then (let hoursToResolve = hoursBetween created resolved in
                         (setProp resolutionTimes sev
                            (jsPlus (getProp resolutionTimes sev) hoursToResolve),
                          setProp counts sev (jsIncr (getProp counts sev))))
                   else acc))))"

definition toAverage :: "obj \<Rightarrow> obj \<Rightarrow> string \<Rightarrow> obj" where
  "toAverage counts resolutionTimes sev =
     (if numGt (toNumber (getProp counts sev)) (Fin 0)
      then setProp resolutionTimes sev
             (Number (parseFloatToFixed1
                (numDiv (toNumber (getProp resolutionTimes sev))
                   (toNumber (getProp counts sev)))))
      else resolutionTimes)"

definition calculateResolutionTimes :: "ticket list \<Rightarrow> obj" where
  "calculateResolutionTimes ts =
     (case foldl addResolution (zeroBuckets, zeroBuckets) ts of
        (resolutionTimes, counts) \<Rightarrow>
          foldl (toAverage counts) resolutionTimes (objectKeys resolutionTimes))"

subsection \<open>calculateSLACompliance\<close>

definition slaTargets :: obj where
  "slaTargets =
     [(''critical'', Number (Fin 4)), (''high'', Number (Fin 24)),
      (''medium'', Number (Fin 72)), (''low'', Number (Fin 168))]"

definition checkSLA :: "obj \<times> obj \<Rightarrow> ticket \<Rightarrow> obj \<times> obj" where
  "checkSLA acc t =
     (case acc of (compliance, counts) \<Rightarrow>
        (case createdDate t of
           Falsy \<Rightarrow> acc
         | Truthy created \<Rightarrow>
             (case resolvedDate t of
                Falsy \<Rightarrow> acc
              | Truthy resolved \<Rightarrow>
                  (let sev = severityKey t in
                   if getProp slaTargets sev \<noteq> Undefined
                   then (let hoursToResolve = hoursBetween created resolved in
                         (if numLe hoursToResolve (toNumber (getProp slaTargets sev))
                          then setProp compliance sev (jsIncr (getProp compliance sev))
                          else compliance,
                          setProp counts sev (jsIncr (getProp counts sev))))
                   else acc))))"

definition toCompliance :: "obj \<Rightarrow> obj \<Rightarrow> string \<Rightarrow> obj" where
  "toCompliance counts compliance sev =
     (if numGt (toNumber (getProp counts sev)) (Fin 0)
      then setProp compliance sev
             (Number (parseFloatToFixed1
                (numMul
                   (numDiv (toNumber (getProp compliance sev))
                      (toNumber (getProp counts sev)))
                   (Fin 100))))
      else compliance)"

definition calculateSLACompliance :: "ticket list \<Rightarrow> obj" where
  "calculateSLACompliance ts =
     (case foldl checkSLA (zeroBuckets, zeroBuckets) ts of
        (compliance, counts) \<Rightarrow>
          foldl (toCompliance counts) compliance (objectKeys compliance))"

subsection \<open>processTickets\<close>

text \<open>
  \<^verbatim>\<open>new Date().toISOString()\<close> reads the clock; the reading is the first argument.
\<close>

definition processTickets :: "int \<Rightarrow> request \<Rightarrow> metrics" where
  "processTickets clock req =
     \<lparr> projectId = request.projectId req,
       timestamp = clock,
       severityDistribution = calculateSeverityDistribution (tickets req),
       averageResolutionTimes = calculateResolutionTimes (tickets req),
       slaCompliance = calculateSLACompliance (tickets req),
       ticketCount = length (tickets req),
       openTickets =
         length (filter (\<lambda>t. status t \<noteq> Some ''resolved'' \<and> status t \<noteq> Some ''closed'')
                   (tickets req)),
       resolvedTickets =
         length (filter (\<lambda>t. status t = Some ''resolved'' \<or> status t = Some ''closed'')
                   (tickets req)) \<rparr>"

section \<open>The metrics store\<close>

text \<open>
  \<^verbatim>\<open>storeMetrics\<close> sends one \<^verbatim>\<open>update\<close> request to the DynamoDB document client.
  The store is outside the repository; it is modelled as far as the request of the source
  uses it: items are attribute maps under the key (table, projectId, timestamp), a
  \<^verbatim>\<open>SET a = :v\<close> clause writes the attribute, \<^verbatim>\<open>SET a = if_not_exists(a, :v)\<close>
  writes it only when the item has none, \<^verbatim>\<open>ReturnValues: 'ALL_NEW'\<close> returns the item
  as written, and a request that fails leaves the table as it was. Whether a request
  fails is the store's choice: \<open>faults\<close> lists the outcomes of the coming requests
  (\<open>Some e\<close>: the request is rejected with the error \<open>e\<close>), and \<open>requests\<close>
  counts the requests received.
\<close>

datatype attr = AString string | ATime int | ANumber int | AMap obj

type_synonym item = "string \<rightharpoonup> attr"

record store_error =
  code :: string
  message :: string

datatype thrown = NewError string | Rethrown store_error

record dynamo =
  items :: "(string \<times> string \<times> int) \<rightharpoonup> item"
  faults :: "store_error option list"
  requests :: nat

record update_params =
  TableName :: string
  Key_projectId :: string
  Key_timestamp :: int
  v_sd :: obj
  v_art :: obj
  v_slac :: obj
  v_tc :: nat
  v_ot :: nat
  v_rt :: nat
  v_ttl :: int
  v_updatedAt :: int

definition applyUpdate :: "update_params \<Rightarrow> item option \<Rightarrow> item" where
  "applyUpdate p old =
     (let it = (case old of
                  None \<Rightarrow> [''projectId'' \<mapsto> AString (Key_projectId p),
                            ''timestamp'' \<mapsto> ATime (Key_timestamp p)]
                | Some i \<Rightarrow> i)
      in it(''severityDistribution'' \<mapsto> AMap (v_sd p),
            ''averageResolutionTimes'' \<mapsto> AMap (v_art p),
            ''slaCompliance'' \<mapsto> AMap (v_slac p),
            ''ticketCount'' \<mapsto> ANumber (int (v_tc p)),
            ''openTickets'' \<mapsto> ANumber (int (v_ot p)),
            ''resolvedTickets'' \<mapsto> ANumber (int (v_rt p)),
            ''ttl'' \<mapsto> (case it ''ttl'' of None \<Rightarrow> ANumber (v_ttl p) | Some v \<Rightarrow> v),
            ''updatedAt'' \<mapsto> ATime (v_updatedAt p)))"

definition dynamoUpdate :: "update_params \<Rightarrow> dynamo \<Rightarrow> (store_error + item) \<times> dynamo" where
  "dynamoUpdate p db =
     (let db' = db\<lparr>faults := tl (faults db), requests := requests db + 1\<rparr> in
      case faults db of
        Some e # rest \<Rightarrow> (Inl e, db')
      | _ \<Rightarrow>
          (let k = (TableName p, Key_projectId p, Key_timestamp p);
               new = applyUpdate p (items db k)
           in (Inr new, db'\<lparr>items := (items db)(k \<mapsto> new)\<rparr>)))"

subsection \<open>storeMetrics\<close>

text \<open>
  The environment of one call: the variable \<^verbatim>\<open>DYNAMODB_TABLE\<close> and the two clock
  readings, \<^verbatim>\<open>Date.now()\<close> for the expiration and \<^verbatim>\<open>new Date()\<close> for
  \<^verbatim>\<open>updatedAt\<close>, in milliseconds.
\<close>

record env =
  DYNAMODB_TABLE :: "string option"
  dateNow :: int
  newDate :: int

definition tableName :: "env \<Rightarrow> string" where
  \<comment> \<open>\<^verbatim>\<open>process.env.DYNAMODB_TABLE || 'MetricsHistory'\<close>\<close>
  "tableName e =
     (case DYNAMODB_TABLE e of
        None \<Rightarrow> ''MetricsHistory''
      | Some s \<Rightarrow> if s = [] then ''MetricsHistory'' else s)"

definition updateParams :: "env \<Rightarrow> metrics \<Rightarrow> update_params" where
  "updateParams e m =
     \<lparr> TableName = tableName e,
       Key_projectId = metrics.projectId m,
       Key_timestamp = timestamp m,
       v_sd = severityDistribution m,
       v_art = averageResolutionTimes m,
       v_slac = slaCompliance m,
       v_tc = ticketCount m,
       v_ot = openTickets m,
       v_rt = resolvedTickets m,
       v_ttl = dateNow e div 1000 + 365 * 24 * 60 * 60,
       v_updatedAt = newDate e \<rparr>"

definition storeMetrics :: "env \<Rightarrow> metrics \<Rightarrow> dynamo \<Rightarrow> (thrown + item) \<times> dynamo" where
  "storeMetrics e m db =
     (let params = updateParams e m in
      case dynamoUpdate params db of
        (Inr attributes, db') \<Rightarrow> (Inr attributes, db')
      | (Inl error, db') \<Rightarrow>
          (if code error = ''ResourceNotFoundException''
           then Inl (NewError (''DynamoDB table '' @ [CHR 0x27] @ TableName params
                                 @ [CHR 0x27] @ '' not found''))
           else if code error = ''ProvisionedThroughputExceededException''
           then Inl (NewError ''DynamoDB write capacity exceeded. Please try again later.'')
           else if code error = ''ValidationException''
           then Inl (NewError (''DynamoDB validation error: '' @ message error))
           else Inl (Rethrown error),
           db'))"

section \<open>Vocabulary of the specification\<close>

text \<open>
  The four canonical severities, and the sets of tickets the specification counts.
  A ticket has both dates when neither date field is falsy; its elapsed hours are
  \<open>NaN\<close> when one of the two does not parse.
\<close>

definition canonicalSeverities :: "string list" where
  "canonicalSeverities = [''low'', ''medium'', ''high'', ''critical'']"

definition hasSeverity :: "string \<Rightarrow> ticket \<Rightarrow> bool" where
  "hasSeverity k t \<longleftrightarrow> map_option toLowerCase (severity t) = Some k"

definition severityCount :: "string \<Rightarrow> ticket list \<Rightarrow> nat" where
  "severityCount k ts = length (filter (hasSeverity k) ts)"

definition recognized :: "ticket \<Rightarrow> bool" where
  "recognized t \<longleftrightarrow>
     hasSeverity ''low'' t \<or> hasSeverity ''medium'' t \<or> hasSeverity ''high'' t
     \<or> hasSeverity ''critical'' t"

definition percentOf :: "nat \<Rightarrow> nat \<Rightarrow> rat" where
  "percentOf c n = 100 * of_nat c / of_nat n"


definition hasBothDates :: "ticket \<Rightarrow> bool" where
  "hasBothDates t \<longleftrightarrow> createdDate t \<noteq> Falsy \<and> resolvedDate t \<noteq> Falsy"

definition elapsedHours :: "ticket \<Rightarrow> jsnum" where
  "elapsedHours t =
     (case createdDate t of
        Falsy \<Rightarrow> NaN
      | Truthy c \<Rightarrow> (case resolvedDate t of Falsy \<Rightarrow> NaN | Truthy r \<Rightarrow> hoursBetween c r))"

definition qualifies :: "string \<Rightarrow> ticket \<Rightarrow> bool" where
  "qualifies k t \<longleftrightarrow> hasBothDates t \<and> hasSeverity k t"

definition targetHours :: "string \<Rightarrow> rat" where
  "targetHours k =
     (if k = ''critical'' then 4 else if k = ''high'' then 24
      else if k = ''medium'' then 72 else 168)"

definition compliant :: "string \<Rightarrow> ticket \<Rightarrow> bool" where
  "compliant k t \<longleftrightarrow> numLe (elapsedHours t) (Fin (targetHours k))"

definition isResolved :: "ticket \<Rightarrow> bool" where
  "isResolved t \<longleftrightarrow> status t = Some ''resolved'' \<or> status t = Some ''closed''"

text \<open>
  The tickets counted for a severity \<open>k\<close> by the resolution-time and the SLA loops,
  the sum of their elapsed hours as JavaScript adds them (one \<open>NaN\<close> makes the
  sum \<open>NaN\<close>), and the sum of the four canonical entries of a distribution.
\<close>

definition qualifyingCount :: "string \<Rightarrow> ticket list \<Rightarrow> nat" where
  "qualifyingCount k ts = length (filter (qualifies k) ts)"

definition compliantCount :: "string \<Rightarrow> ticket list \<Rightarrow> nat" where
  "compliantCount k ts = length (filter (\<lambda>t. qualifies k t \<and> compliant k t) ts)"




definition distributionSum :: "obj \<Rightarrow> jsnum" where
  "distributionSum d =
     numAdd (numAdd (numAdd (toNumber (getProp d ''low'')) (toNumber (getProp d ''medium'')))
        (toNumber (getProp d ''high''))) (toNumber (getProp d ''critical''))"

text \<open>
  The kinds of store failure the specification names, the kind of a store error (read
  from its code), and the kind a caller reads off what \<^verbatim>\<open>storeMetrics\<close> raises:
  from the code of an error passed on unchanged, from the message of a new \<^verbatim>\<open>Error\<close>
  (which has no code).
\<close>

datatype failure_kind = NotFound | CapacityExceeded | ValidationFailure | OtherFailure string

definition kindOf :: "store_error \<Rightarrow> failure_kind" where
  "kindOf err =
     (if code err = ''ResourceNotFoundException'' then NotFound
      else if code err = ''ProvisionedThroughputExceededException'' then CapacityExceeded
      else if code err = ''ValidationException'' then ValidationFailure
      else OtherFailure (code err))"

definition seenKind :: "thrown \<Rightarrow> failure_kind" where
  "seenKind t =
     (case t of
        Rethrown err \<Rightarrow> kindOf err
      | NewError msg \<Rightarrow>
          if take 15 msg = ''DynamoDB table '' then NotFound
          else if take 15 msg = ''DynamoDB write '' then CapacityExceeded
          else ValidationFailure)"

definition nextSucceeds :: "dynamo \<Rightarrow> bool" where
  "nextSucceeds db = (case faults db of Some e # rest \<Rightarrow> False | _ \<Rightarrow> True)"

definition storedTtl :: "dynamo \<Rightarrow> string \<times> string \<times> int \<Rightarrow> attr option" where
  "storedTtl db k = (case items db k of None \<Rightarrow> None | Some it \<Rightarrow> it ''ttl'')"

definition keyOf :: "env \<Rightarrow> metrics \<Rightarrow> string \<times> string \<times> int" where
  "keyOf e m = (tableName e, metrics.projectId m, timestamp m)"

section \<open>Sample inputs\<close>

definition ticketA :: ticket where
  \<comment> \<open>severity "High", resolved after 12 hours\<close>
  "ticketA = \<lparr> ticket_id = ''T-1'', severity = Some ''High'', status = Some ''resolved'',
       createdDate = Truthy (Some 0), resolvedDate = Truthy (Some 43200000) \<rparr>"

definition ticketB :: ticket where
  \<comment> \<open>severity "critical", resolved after 10 hours, status "Closed"\<close>
  "ticketB = \<lparr> ticket_id = ''T-2'', severity = Some ''critical'', status = Some ''Closed'',
       createdDate = Truthy (Some 0), resolvedDate = Truthy (Some 36000000) \<rparr>"

definition ticketC :: ticket where
  \<comment> \<open>severity "high", no resolution date\<close>
  "ticketC = \<lparr> ticket_id = ''T-3'', severity = Some ''high'', status = Some ''open'',
       createdDate = Truthy (Some 0), resolvedDate = Falsy \<rparr>"

definition sampleRequest :: request where
  "sampleRequest = \<lparr> request.projectId = ''PROJ'', tickets = [ticketA, ticketB, ticketC] \<rparr>"

definition ticketNoSeverity :: ticket where
  "ticketNoSeverity = \<lparr> ticket_id = ''T-4'', severity = None, status = Some ''open'',
       createdDate = Truthy (Some 0), resolvedDate = Truthy (Some 3600000) \<rparr>"

definition ticketUrgent :: ticket where
  "ticketUrgent = \<lparr> ticket_id = ''T-5'', severity = Some ''urgent'', status = None,
       createdDate = Truthy (Some 0), resolvedDate = Truthy (Some 3600000) \<rparr>"

definition ticketOddName :: ticket where
  "ticketOddName = \<lparr> ticket_id = ''T-6'', severity = Some ''Constructor'',
       status = Some ''open'', createdDate = Truthy (Some 0),
       resolvedDate = Truthy (Some 3600000) \<rparr>"


definition mixedRequest :: request where
  "mixedRequest = \<lparr> request.projectId = ''PROJ'',
       tickets = [ticketA, ticketNoSeverity, ticketUrgent, ticketOddName, ticketB] \<rparr>"


definition emptyStore :: dynamo where
  "emptyStore = \<lparr> items = Map.empty, faults = [], requests = 0 \<rparr>"

definition firstCall :: env where
  "firstCall = \<lparr> DYNAMODB_TABLE = None, dateNow = 1700000000000, newDate = 1700000000001 \<rparr>"

definition secondCall :: env where
  "secondCall = \<lparr> DYNAMODB_TABLE = Some [], dateNow = 1700000600000, newDate = 1700000600000 \<rparr>"

definition throttled :: store_error where
  "throttled = \<lparr> code = ''ProvisionedThroughputExceededException'',
                  message = ''Rate exceeded'' \<rparr>"

section \<open>Properties of the object operations\<close>

lemma getProp_own: "map_of ob k = Some v \<Longrightarrow> getProp ob k = v"
  by (simp add: getProp_def)

lemma map_of_setProp:
  "k \<noteq> ''__proto__'' \<Longrightarrow> map_of (setProp ob k' v) k = (if k' = k then Some v else map_of ob k)"
  by (simp add: setProp_def update_conv')

lemma distinct_setProp: "distinct (map fst ob) \<Longrightarrow> distinct (map fst (setProp ob k v))"
  by (simp add: setProp_def distinct_update)

lemma canonical_cases:
  "k \<in> set canonicalSeverities \<longleftrightarrow>
     k = ''low'' \<or> k = ''medium'' \<or> k = ''high'' \<or> k = ''critical''"
  by (auto simp: canonicalSeverities_def)

lemma canonical_not_proto: "k \<in> set canonicalSeverities \<Longrightarrow> k \<noteq> ''__proto__''"
  by (auto simp: canonical_cases)

lemma canonical_not_undefined: "k \<in> set canonicalSeverities \<Longrightarrow> k \<noteq> ''undefined''"
  by (auto simp: canonical_cases)

lemma zeroBuckets_canonical:
  "k \<in> set canonicalSeverities \<Longrightarrow> map_of zeroBuckets k = Some (Number (Fin 0))"
  by (auto simp: canonical_cases zeroBuckets_def)

lemma slaTargets_canonical:
  "k \<in> set canonicalSeverities \<Longrightarrow> map_of slaTargets k = Some (Number (Fin (targetHours k)))"
  by (auto simp: canonical_cases slaTargets_def targetHours_def)

lemma distinct_zeroBuckets: "distinct (map fst zeroBuckets)"
  by (simp add: zeroBuckets_def)

lemma severityKey_eq:
  "k \<noteq> ''undefined'' \<Longrightarrow> severityKey t = k \<longleftrightarrow> hasSeverity k t"
  by (cases "severity t") (auto simp: severityKey_def propertyKey_def hasSeverity_def)

text \<open>The loop over \<^verbatim>\<open>Object.keys\<close> rewrites one bucket at a time.\<close>

lemma foldl_keys_other:
  assumes "\<And>d key. key \<noteq> k \<Longrightarrow> map_of (f d key) k = map_of d k"
  shows "k \<notin> set ks \<Longrightarrow> map_of (foldl f d ks) k = map_of d k"
  by (induction ks arbitrary: d) (auto simp: assms)

lemma foldl_keys_bucket:
  assumes other: "\<And>d key. key \<noteq> k \<Longrightarrow> map_of (f d key) k = map_of d k"
    and same: "\<And>d. map_of d k = Some v \<Longrightarrow> map_of (f d k) k = Some w"
    and "distinct ks" and "k \<in> set ks" and "map_of d k = Some v"
  shows "map_of (foldl f d ks) k = Some w"
  using assms(3-5)
proof (induction ks arbitrary: d)
  case Nil
  then show ?case by simp
next
  case (Cons a ks)
  show ?case
  proof (cases "a = k")
    case True
    with Cons.prems have "k \<notin> set ks" by simp
    from foldl_keys_other [OF other this] True same [OF Cons.prems(3)]
    show ?thesis by simp
  next
    case False
    with Cons.prems other [of a d] have "map_of (f d a) k = Some v" by simp
    with False Cons.prems Cons.IH [of "f d a"] show ?thesis by simp
  qed
qed

lemma own_key: "map_of d k = Some v \<Longrightarrow> k \<in> set (objectKeys d)"
  by (auto simp: objectKeys_def dest: map_of_SomeD intro: rev_image_eqI)

section \<open>Rounding\<close>

lemma toFixed1_close: "\<bar>toFixed1 x - x\<bar> \<le> 1 / 20"
proof -
  have up: "\<bar>of_int \<lfloor>y * 10 + 1 / 2\<rfloor> / 10 - y\<bar> \<le> 1 / 20" for y :: rat
  proof -
    define m where "m = \<lfloor>y * 10 + 1 / 2\<rfloor>"
    have "of_int m \<le> y * 10 + 1 / 2" and "y * 10 + 1 / 2 < of_int m + 1"
      unfolding m_def by linarith+
    then have "\<bar>of_int m / 10 - y\<bar> \<le> 1 / 20"
      by linarith
    then show ?thesis by (simp only: m_def)
  qed
  show ?thesis
  proof (cases "10 ^ 21 \<le> \<bar>x\<bar>")
    case True
    then show ?thesis by (simp add: toFixed1_def)
  next
    case small: False
    show ?thesis
    proof (cases "x < 0")
      case True
      with small have "toFixed1 x = - (of_int \<lfloor>(- x) * 10 + 1 / 2\<rfloor> / 10)"
        by (simp only: toFixed1_def if_True if_False)
      with up [of "- x"] show ?thesis by linarith
    next
      case False
      with small have "toFixed1 x = of_int \<lfloor>x * 10 + 1 / 2\<rfloor> / 10"
        by (simp only: toFixed1_def if_True if_False)
      with up [of x] show ?thesis by linarith
    qed
  qed
qed


lemma toFixed1_percent:
  assumes "0 \<le> x" and "x \<le> 100"
  shows "0 \<le> toFixed1 x \<and> toFixed1 x \<le> 100"
proof -
  from assms have eq: "toFixed1 x = of_int \<lfloor>x * 10 + 1 / 2\<rfloor> / 10"
    by (simp add: toFixed1_def)
  from assms have "0 \<le> \<lfloor>x * 10 + 1 / 2\<rfloor>" by simp
  moreover from assms have "x * 10 + 1 / 2 < 1001" by simp
  then have "\<lfloor>x * 10 + 1 / 2\<rfloor> < 1001" by (simp add: floor_less_iff)
  then have "\<lfloor>x * 10 + 1 / 2\<rfloor> \<le> 1000" by simp
  then have "(of_int \<lfloor>x * 10 + 1 / 2\<rfloor> :: rat) \<le> 1000"
    by (metis of_int_le_iff of_int_numeral)
  ultimately show ?thesis unfolding eq by simp
qed

lemma percentOf_range: "c \<le> n \<Longrightarrow> 0 \<le> percentOf c n \<and> percentOf c n \<le> 100"
proof (cases "n = 0")
  case True
  then show ?thesis by (simp add: percentOf_def)
next
  case False
  assume "c \<le> n"
  then have "(of_nat c :: rat) \<le> of_nat n" by simp
  with False show ?thesis by (simp add: percentOf_def field_simps)
qed


section \<open>The severity distribution\<close>

lemma countSeverity_bucket:
  assumes "map_of d k = Some (Number (Fin n))" and "k \<in> set canonicalSeverities"
  shows "map_of (countSeverity d t) k =
           Some (Number (Fin (if hasSeverity k t then n + 1 else n)))"
proof (cases "severityKey t = k")
  case True
  with assms show ?thesis
    by (simp add: countSeverity_def Let_def getProp_own map_of_setProp jsIncr_def
        canonical_not_proto severityKey_eq [OF canonical_not_undefined, symmetric])
next
  case False
  with assms show ?thesis
    by (simp add: countSeverity_def Let_def map_of_setProp
        canonical_not_proto severityKey_eq [OF canonical_not_undefined, symmetric])
qed

lemma distinct_countSeverity:
  "distinct (map fst d) \<Longrightarrow> distinct (map fst (countSeverity d t))"
  by (simp add: countSeverity_def Let_def distinct_setProp)

lemma foldl_countSeverity_bucket:
  "map_of d k = Some (Number (Fin n)) \<Longrightarrow> k \<in> set canonicalSeverities \<Longrightarrow>
   map_of (foldl countSeverity d ts) k =
     Some (Number (Fin (n + of_nat (length (filter (hasSeverity k) ts)))))"
proof (induction ts arbitrary: d n)
  case Nil
  then show ?case by simp
next
  case (Cons t ts)
  from countSeverity_bucket [OF Cons.prems] Cons.IH [OF _ Cons.prems(2)]
  show ?case by (simp add: add.assoc add.commute)
qed

lemma distinct_foldl_countSeverity:
  "distinct (map fst d) \<Longrightarrow> distinct (map fst (foldl countSeverity d ts))"
  by (induction ts arbitrary: d) (simp_all add: distinct_countSeverity)

lemma toPercentage_other:
  "key \<noteq> k \<Longrightarrow> map_of (toPercentage n d key) k = map_of d k"
  by (cases "k = ''__proto__''")
     (auto simp: toPercentage_def setProp_def update_conv')

lemma toPercentage_same:
  "k \<noteq> ''__proto__'' \<Longrightarrow> map_of d k = Some (Number (Fin c)) \<Longrightarrow>
   map_of (toPercentage n d k) k =
     Some (Number (Fin (if n > 0 then toFixed1 (c / of_nat n * 100) else 0)))"
  by (simp add: toPercentage_def map_of_setProp getProp_own)

lemma severityDistribution_bucket:
  assumes k: "k \<in> set canonicalSeverities"
  shows "map_of (calculateSeverityDistribution ts) k =
           Some (Number (Fin (if ts = [] then 0
                              else toFixed1 (percentOf (severityCount k ts) (length ts)))))"
proof -
  let ?d = "foldl countSeverity zeroBuckets ts"
  have d: "map_of ?d k = Some (Number (Fin (of_nat (length (filter (hasSeverity k) ts)))))"
    using foldl_countSeverity_bucket [OF zeroBuckets_canonical [OF k] k, of ts] by simp
  have "distinct (objectKeys ?d)"
    unfolding objectKeys_def by (rule distinct_foldl_countSeverity [OF distinct_zeroBuckets])
  moreover have "c / of_nat (length ts) * 100 = percentOf (severityCount k ts) (length ts)"
    if "c = of_nat (length (filter (hasSeverity k) ts))" for c :: rat
    using that by (simp add: percentOf_def severityCount_def)
  ultimately have "map_of (foldl (toPercentage (length ts)) ?d (objectKeys ?d)) k =
      Some (Number (Fin (if length ts > 0
         then toFixed1 (of_nat (length (filter (hasSeverity k) ts)) / of_nat (length ts) * 100)
         else 0)))"
    by (intro foldl_keys_bucket [where f = "toPercentage (length ts)", OF toPercentage_other
          toPercentage_same [OF canonical_not_proto [OF k]] _ own_key [OF d] d])
  then show ?thesis
    by (simp add: calculateSeverityDistribution_def Let_def percentOf_def severityCount_def
        mult.commute)
qed

lemma severityCount_le: "severityCount k ts \<le> length ts"
  by (simp add: severityCount_def)

section \<open>The resolution times\<close>

lemma elapsedHours_eq:
  "createdDate t = Truthy c \<Longrightarrow> resolvedDate t = Truthy r \<Longrightarrow> elapsedHours t = hoursBetween c r"
  by (simp add: elapsedHours_def)

lemma hasBothDates_iff:
  "hasBothDates t \<longleftrightarrow> (\<exists>c r. createdDate t = Truthy c \<and> resolvedDate t = Truthy r)"
  by (cases "createdDate t"; cases "resolvedDate t") (simp_all add: hasBothDates_def)













section \<open>The SLA compliance\<close>

lemma checkSLA_bucket:
  assumes cp: "map_of cp k = Some (Number (Fin a))"
    and cn: "map_of cn k = Some (Number (Fin b))"
    and k: "k \<in> set canonicalSeverities"
  shows "map_of (fst (checkSLA (cp, cn) t)) k =
           Some (Number (Fin (if qualifies k t \<and> compliant k t then a + 1 else a)))
         \<and> map_of (snd (checkSLA (cp, cn) t)) k =
           Some (Number (Fin (if qualifies k t then b + 1 else b)))"
proof (cases "hasBothDates t")
  case False
  then show ?thesis
    using cp cn
    by (cases "createdDate t"; cases "resolvedDate t")
       (simp_all add: checkSLA_def qualifies_def hasBothDates_def)
next
  case True
  then obtain c r where d: "createdDate t = Truthy c" "resolvedDate t = Truthy r"
    by (auto simp: hasBothDates_iff)
  note sk = severityKey_eq [OF canonical_not_undefined [OF k], symmetric]
  note np = canonical_not_proto [OF k]
  show ?thesis
  proof (cases "severityKey t = k")
    case same: True
    with True have q: "qualifies k t" by (simp add: qualifies_def sk)
    from same cp cn d q show ?thesis
      by (simp add: checkSLA_def Let_def getProp_own map_of_setProp np jsIncr_def
          compliant_def elapsedHours_eq slaTargets_canonical [OF k])
  next
    case other: False
    then have q: "\<not> qualifies k t" by (simp add: qualifies_def sk)
    from other cp cn d q show ?thesis
      by (simp add: checkSLA_def Let_def map_of_setProp np)
  qed
qed

lemma distinct_checkSLA:
  "distinct (map fst cp) \<Longrightarrow> distinct (map fst (fst (checkSLA (cp, cn) t)))"
  by (cases "createdDate t"; cases "resolvedDate t")
     (simp_all add: checkSLA_def Let_def distinct_setProp)

lemma foldl_checkSLA_bucket:
  assumes k: "k \<in> set canonicalSeverities"
  shows "map_of cp k = Some (Number (Fin a)) \<Longrightarrow> map_of cn k = Some (Number (Fin b)) \<Longrightarrow>
    map_of (fst (foldl checkSLA (cp, cn) ts)) k =
      Some (Number (Fin (a + of_nat (length (filter (\<lambda>t. qualifies k t \<and> compliant k t) ts)))))
    \<and> map_of (snd (foldl checkSLA (cp, cn) ts)) k =
      Some (Number (Fin (b + of_nat (length (filter (qualifies k) ts)))))"
proof (induction ts arbitrary: cp cn a b)
  case Nil
  then show ?case by simp
next
  case (Cons t ts)
  obtain cp' cn' where step: "checkSLA (cp, cn) t = (cp', cn')"
    by (cases "checkSLA (cp, cn) t")
  from checkSLA_bucket [OF Cons.prems k, of t] step
  have cp': "map_of cp' k = Some (Number (Fin (if qualifies k t \<and> compliant k t then a + 1 else a)))"
    and cn': "map_of cn' k = Some (Number (Fin (if qualifies k t then b + 1 else b)))"
    by simp_all
  from Cons.IH [OF cp' cn'] step show ?case
    by (simp add: add.assoc add.commute)
qed

lemma distinct_foldl_checkSLA:
  "distinct (map fst cp) \<Longrightarrow> distinct (map fst (fst (foldl checkSLA (cp, cn) ts)))"
proof (induction ts arbitrary: cp cn)
  case Nil
  then show ?case by simp
next
  case (Cons t ts)
  obtain cp' cn' where step: "checkSLA (cp, cn) t = (cp', cn')"
    by (cases "checkSLA (cp, cn) t")
  with distinct_checkSLA [OF Cons.prems, of cn t] have "distinct (map fst cp')" by simp
  from Cons.IH [OF this] step show ?case by simp
qed

lemma toCompliance_other:
  "key \<noteq> k \<Longrightarrow> map_of (toCompliance cn d key) k = map_of d k"
  by (cases "k = ''__proto__''")
     (auto simp: toCompliance_def setProp_def update_conv')

lemma toCompliance_same:
  "k \<noteq> ''__proto__'' \<Longrightarrow> map_of cn k = Some (Number (Fin b)) \<Longrightarrow> map_of d k = Some (Number (Fin a)) \<Longrightarrow>
   map_of (toCompliance cn d k) k =
     Some (Number (Fin (if b > 0 then toFixed1 (a / b * 100) else a)))"
  by (simp add: toCompliance_def map_of_setProp getProp_own)

lemma compliantCount_le: "compliantCount k ts \<le> qualifyingCount k ts"
  unfolding compliantCount_def qualifyingCount_def
  by (induction ts) auto

lemma slaCompliance_bucket:
  assumes k: "k \<in> set canonicalSeverities"
  shows "map_of (calculateSLACompliance ts) k =
           Some (Number (Fin (if qualifyingCount k ts = 0 then 0
              else toFixed1 (percentOf (compliantCount k ts) (qualifyingCount k ts)))))"
proof -
  obtain cp cn where f: "foldl checkSLA (zeroBuckets, zeroBuckets) ts = (cp, cn)"
    by (cases "foldl checkSLA (zeroBuckets, zeroBuckets) ts")
  from foldl_checkSLA_bucket [OF k zeroBuckets_canonical [OF k] zeroBuckets_canonical [OF k], of ts] f
  have cp: "map_of cp k = Some (Number (Fin (of_nat (compliantCount k ts))))"
    and cn: "map_of cn k = Some (Number (Fin (of_nat (qualifyingCount k ts))))"
    by (simp_all add: compliantCount_def qualifyingCount_def)
  from distinct_foldl_checkSLA [OF distinct_zeroBuckets, of zeroBuckets ts] f
  have dist: "distinct (objectKeys cp)" by (simp add: objectKeys_def)
  have "map_of (foldl (toCompliance cn) cp (objectKeys cp)) k =
      Some (Number (Fin (if (of_nat (qualifyingCount k ts) :: rat) > 0
         then toFixed1 (of_nat (compliantCount k ts) / of_nat (qualifyingCount k ts) * 100)
         else of_nat (compliantCount k ts))))"
    by (intro foldl_keys_bucket [where f = "toCompliance cn", OF toCompliance_other
          toCompliance_same [OF canonical_not_proto [OF k] cn] dist own_key [OF cp] cp])
  moreover have "compliantCount k ts = 0" if "qualifyingCount k ts = 0"
    using that compliantCount_le [of k ts] by simp
  ultimately show ?thesis
    by (auto simp: calculateSLACompliance_def f percentOf_def mult.commute)
qed

section \<open>Tickets without a canonical severity\<close>





lemma severityCount_partition:
  "\<forall>t\<in>set ts. recognized t \<Longrightarrow>
   severityCount ''low'' ts + severityCount ''medium'' ts + severityCount ''high'' ts
     + severityCount ''critical'' ts = length ts"
proof (induction ts)
  case Nil
  then show ?case by (simp add: severityCount_def)
next
  case (Cons t ts)
  then have t: "recognized t" and ts: "\<forall>t\<in>set ts. recognized t" by simp_all
  from t have "length (filter (hasSeverity ''low'') [t]) + length (filter (hasSeverity ''medium'') [t])
      + length (filter (hasSeverity ''high'') [t]) + length (filter (hasSeverity ''critical'') [t])
      = 1"
    by (auto simp: recognized_def hasSeverity_def)
  moreover have "severityCount k (t # ts) = length (filter (hasSeverity k) [t]) + severityCount k ts"
    for k by (simp add: severityCount_def)
  ultimately show ?case using Cons.IH [OF ts] by simp
qed

lemma canonical_entries_in_range:
  assumes "k \<in> set canonicalSeverities"
  shows "\<exists>x y. getProp (calculateSeverityDistribution ts) k = Number (Fin x) \<and> 0 \<le> x \<and> x \<le> 100
           \<and> getProp (calculateSLACompliance ts) k = Number (Fin y) \<and> 0 \<le> y \<and> y \<le> 100"
proof -
  let ?x = "if ts = [] then 0 else toFixed1 (percentOf (severityCount k ts) (length ts))"
  let ?y = "if qualifyingCount k ts = 0 then 0
            else toFixed1 (percentOf (compliantCount k ts) (qualifyingCount k ts))"
  have "0 \<le> ?x \<and> ?x \<le> 100"
    using toFixed1_percent percentOf_range [OF severityCount_le, of k ts] by simp
  moreover have "0 \<le> ?y \<and> ?y \<le> 100"
    using toFixed1_percent percentOf_range [OF compliantCount_le, of k ts] by simp
  ultimately show ?thesis
    using severityDistribution_bucket [OF assms, of ts] slaCompliance_bucket [OF assms, of ts]
    by (simp add: getProp_own)
qed

section \<open>One successful update\<close>

lemma dynamoUpdate_ok:
  assumes "nextSucceeds db"
  shows "dynamoUpdate p db =
           (Inr (applyUpdate p (items db (TableName p, Key_projectId p, Key_timestamp p))),
            db\<lparr>faults := tl (faults db), requests := requests db + 1,
               items := (items db)((TableName p, Key_projectId p, Key_timestamp p) \<mapsto>
                  applyUpdate p (items db (TableName p, Key_projectId p, Key_timestamp p)))\<rparr>)"
  using assms
  by (auto simp: dynamoUpdate_def nextSucceeds_def Let_def split: list.splits option.splits)

lemma storeMetrics_ok:
  assumes "nextSucceeds db"
  shows "storeMetrics e m db =
           (Inr (applyUpdate (updateParams e m) (items db (keyOf e m))),
            db\<lparr>faults := tl (faults db), requests := requests db + 1,
               items := (items db)(keyOf e m \<mapsto>
                  applyUpdate (updateParams e m) (items db (keyOf e m)))\<rparr>)"
  by (simp add: storeMetrics_def Let_def dynamoUpdate_ok [OF assms] keyOf_def updateParams_def)

lemma updateParams_sel:
  "TableName (updateParams e m) = tableName e"
  "v_ttl (updateParams e m) = dateNow e div 1000 + 31536000"
  by (simp_all add: updateParams_def)

lemma applyUpdate_ttl:
  "applyUpdate p old ''ttl'' =
     Some (case (case old of None \<Rightarrow> None | Some it \<Rightarrow> it ''ttl'') of
             None \<Rightarrow> ANumber (v_ttl p) | Some v \<Rightarrow> v)"
  by (cases old) (simp_all add: applyUpdate_def Let_def)

section \<open>Claims\<close>



text \<open>
  C2. Two calls of \<^verbatim>\<open>storeMetrics\<close> with the same key (table, projectId, timestamp),
  the second on the store the first left, both accepted by the store: the first returns
  an item whose \<^verbatim>\<open>ttl\<close> is the one the store already held under the key, or else its
  own \<^verbatim>\<open>floor(Date.now() / 1000) + 31536000\<close>; the second returns, and leaves in the
  store, an item with that same \<^verbatim>\<open>ttl\<close>, not its own fresh one, while every computed
  field of the item is the second call's.
\<close>

theorem C2_expiration_kept:
  assumes "keyOf e1 m1 = keyOf e2 m2"
    and "nextSucceeds db"
    and "nextSucceeds (snd (storeMetrics e1 m1 db))"
  shows "\<exists>r1 r2 db1 db2.
           storeMetrics e1 m1 db = (Inr r1, db1)
         \<and> storeMetrics e2 m2 db1 = (Inr r2, db2)
         \<and> r1 ''ttl'' = Some (case storedTtl db (keyOf e1 m1) of
                                   None \<Rightarrow> ANumber (dateNow e1 div 1000 + 31536000)
                                 | Some v \<Rightarrow> v)
         \<and> r2 ''ttl'' = r1 ''ttl''
         \<and> items db2 (keyOf e2 m2) = Some r2
         \<and> r2 ''severityDistribution'' = Some (AMap (severityDistribution m2))
         \<and> r2 ''averageResolutionTimes'' = Some (AMap (averageResolutionTimes m2))
         \<and> r2 ''slaCompliance'' = Some (AMap (slaCompliance m2))
         \<and> r2 ''ticketCount'' = Some (ANumber (int (ticketCount m2)))
         \<and> r2 ''openTickets'' = Some (ANumber (int (openTickets m2)))
         \<and> r2 ''resolvedTickets'' = Some (ANumber (int (resolvedTickets m2)))"
proof -
  let ?k = "keyOf e1 m1"
  let ?r1 = "applyUpdate (updateParams e1 m1) (items db ?k)"
  let ?db1 = "snd (storeMetrics e1 m1 db)"
  let ?r2 = "applyUpdate (updateParams e2 m2) (items ?db1 ?k)"
  have s1: "storeMetrics e1 m1 db = (Inr ?r1, ?db1)"
    by (simp add: storeMetrics_ok [OF assms(2)])
  have i1: "items ?db1 ?k = Some ?r1"
    by (simp add: storeMetrics_ok [OF assms(2)])
  have s2: "storeMetrics e2 m2 ?db1 = (Inr ?r2, snd (storeMetrics e2 m2 ?db1))"
    by (simp add: storeMetrics_ok [OF assms(3)] assms(1) [symmetric])
  have i2: "items (snd (storeMetrics e2 m2 ?db1)) (keyOf e2 m2) = Some ?r2"
    by (simp add: storeMetrics_ok [OF assms(3)] assms(1) [symmetric])
  have t1: "?r1 ''ttl'' = Some (case storedTtl db ?k of
               None \<Rightarrow> ANumber (dateNow e1 div 1000 + 31536000) | Some v \<Rightarrow> v)"
    by (simp add: applyUpdate_ttl storedTtl_def updateParams_sel split: option.splits)
  have t2: "?r2 ''ttl'' = ?r1 ''ttl''"
    by (simp add: applyUpdate_ttl i1 t1)
  have f: "?r2 ''severityDistribution'' = Some (AMap (severityDistribution m2))"
    "?r2 ''averageResolutionTimes'' = Some (AMap (averageResolutionTimes m2))"
    "?r2 ''slaCompliance'' = Some (AMap (slaCompliance m2))"
    "?r2 ''ticketCount'' = Some (ANumber (int (ticketCount m2)))"
    "?r2 ''openTickets'' = Some (ANumber (int (openTickets m2)))"
    "?r2 ''resolvedTickets'' = Some (ANumber (int (resolvedTickets m2)))"
    by (simp_all add: applyUpdate_def Let_def updateParams_def)
  from s1 s2 t1 t2 i2 f show ?thesis by blast
qed

theorem C2_expiration_kept_witness:
  "keyOf firstCall (processTickets 5 sampleRequest) = keyOf secondCall (processTickets 5 mixedRequest)
   \<and> nextSucceeds emptyStore
   \<and> nextSucceeds (snd (storeMetrics firstCall (processTickets 5 sampleRequest) emptyStore))
   \<and> (\<exists>r2 db2.
        storeMetrics secondCall (processTickets 5 mixedRequest)
          (snd (storeMetrics firstCall (processTickets 5 sampleRequest) emptyStore)) = (Inr r2, db2)
        \<and> r2 ''ttl'' = Some (ANumber 1731536000)
        \<and> r2 ''ticketCount'' = Some (ANumber 5))
   \<and> dateNow secondCall div 1000 + 31536000 = 1731536600"
proof -
  let ?m1 = "processTickets 5 sampleRequest"
  let ?m2 = "processTickets 5 mixedRequest"
  have k: "keyOf firstCall ?m1 = keyOf secondCall ?m2"
    by (simp add: keyOf_def tableName_def firstCall_def secondCall_def processTickets_def
        sampleRequest_def mixedRequest_def)
  have a: "nextSucceeds emptyStore"
    by (simp add: nextSucceeds_def emptyStore_def)
  have b: "nextSucceeds (snd (storeMetrics firstCall ?m1 emptyStore))"
    by (simp add: storeMetrics_ok [OF a]) (simp add: nextSucceeds_def emptyStore_def)
  have n: "storedTtl emptyStore (keyOf firstCall ?m1) = None"
    by (simp add: storedTtl_def emptyStore_def)
  have t: "dateNow firstCall div 1000 + 31536000 = 1731536000"
    "dateNow secondCall div 1000 + 31536000 = 1731536600"
    by (simp_all add: firstCall_def secondCall_def)
  have c: "int (ticketCount ?m2) = 5"
    by (simp add: processTickets_def mixedRequest_def)
  from C2_expiration_kept [OF k a b] obtain r1 r2 db1 db2 where
    "storeMetrics firstCall ?m1 emptyStore = (Inr r1, db1)"
    "storeMetrics secondCall ?m2 db1 = (Inr r2, db2)"
    "r1 ''ttl'' = Some (case storedTtl emptyStore (keyOf firstCall ?m1) of
                          None \<Rightarrow> ANumber (dateNow firstCall div 1000 + 31536000)
                        | Some v \<Rightarrow> v)"
    "r2 ''ttl'' = r1 ''ttl''"
    "r2 ''ticketCount'' = Some (ANumber (int (ticketCount ?m2)))"
    by blast
  then have "storeMetrics secondCall ?m2 (snd (storeMetrics firstCall ?m1 emptyStore)) = (Inr r2, db2)
        \<and> r2 ''ttl'' = Some (ANumber 1731536000)
        \<and> r2 ''ticketCount'' = Some (ANumber 5)"
    by (simp add: n t c)
  with k a b t show ?thesis by blast
qed








text \<open>
  C6 (amended). For every non-empty ticket list in which every ticket has a canonical
  severity, the four canonical entries of \<^verbatim>\<open>severityDistribution\<close> are numbers whose
  sum is within 0.4 of 100.
\<close>

theorem C6_distribution_sum:
  assumes "tickets req \<noteq> []" and "\<forall>t\<in>set (tickets req). recognized t"
  shows "\<exists>s. distributionSum (severityDistribution (processTickets clock req)) = Fin s
             \<and> \<bar>s - 100\<bar> \<le> 4 / 10"
proof -
  let ?ts = "tickets req"
  let ?p = "\<lambda>k. percentOf (severityCount k ?ts) (length ?ts)"
  have entry: "getProp (severityDistribution (processTickets clock req)) k
                 = Number (Fin (toFixed1 (?p k)))"
    if "k \<in> set canonicalSeverities" for k
    using severityDistribution_bucket [OF that, of ?ts] assms(1)
    by (simp add: processTickets_def getProp_own)
  have sum: "distributionSum (severityDistribution (processTickets clock req)) =
      Fin (toFixed1 (?p ''low'') + toFixed1 (?p ''medium'') + toFixed1 (?p ''high'')
           + toFixed1 (?p ''critical''))"
    by (simp add: distributionSum_def entry canonical_cases)
  from assms(1) have n: "(of_nat (length ?ts) :: rat) \<noteq> 0" by simp
  have "?p ''low'' + ?p ''medium'' + ?p ''high'' + ?p ''critical''
          = 100 * of_nat (severityCount ''low'' ?ts + severityCount ''medium'' ?ts
               + severityCount ''high'' ?ts + severityCount ''critical'' ?ts)
            / of_nat (length ?ts)"
    by (simp add: percentOf_def add_divide_distrib distrib_left)
  also have "\<dots> = 100"
    using n by (simp add: severityCount_partition [OF assms(2)])
  finally have total: "?p ''low'' + ?p ''medium'' + ?p ''high'' + ?p ''critical'' = 100" .
  from toFixed1_close [of "?p ''low''"] toFixed1_close [of "?p ''medium''"]
    toFixed1_close [of "?p ''high''"] toFixed1_close [of "?p ''critical''"] total
  have "\<bar>toFixed1 (?p ''low'') + toFixed1 (?p ''medium'') + toFixed1 (?p ''high'')
           + toFixed1 (?p ''critical'') - 100\<bar> \<le> 4 / 10"
    by linarith
  with sum show ?thesis by blast
qed

theorem C6_distribution_sum_witness:
  "tickets sampleRequest \<noteq> []
   \<and> list_all recognized (tickets sampleRequest)
   \<and> distributionSum (severityDistribution (processTickets 0 sampleRequest)) = Fin 100
   \<and> (\<exists>s. distributionSum (severityDistribution (processTickets 0 sampleRequest)) = Fin s
           \<and> \<bar>s - 100\<bar> \<le> 4 / 10)"
proof -
  have a: "tickets sampleRequest \<noteq> []"
    by (simp add: sampleRequest_def)
  have b: "\<forall>t\<in>set (tickets sampleRequest). recognized t"
    by code_simp
  have c: "distributionSum (severityDistribution (processTickets 0 sampleRequest)) = Fin 100"
    by code_simp
  from b have "list_all recognized (tickets sampleRequest)"
    by (simp add: list_all_iff)
  with C6_distribution_sum [OF a b, of 0] a c show ?thesis by simp
qed

text \<open>
  The claim as written fails on a non-empty list: one ticket without a severity gives four
  entries 0, whose sum is 0.
\<close>

theorem C6_counterexample:
  "tickets \<lparr> request.projectId = ''PROJ'', tickets = [ticketNoSeverity] \<rparr> \<noteq> []
   \<and> distributionSum (severityDistribution
        (processTickets 0 \<lparr> request.projectId = ''PROJ'', tickets = [ticketNoSeverity] \<rparr>)) = Fin 0
   \<and> \<not> \<bar>(0::rat) - 100\<bar> \<le> 4 / 10"
proof -
  have "distributionSum (severityDistribution
        (processTickets 0 \<lparr> request.projectId = ''PROJ'', tickets = [ticketNoSeverity] \<rparr>)) = Fin 0"
    by code_simp
  then show ?thesis by simp
qed

text \<open>
  C7. \<^verbatim>\<open>resolvedTickets\<close> is the number of tickets whose status is exactly
  \<^verbatim>\<open>resolved\<close> or \<^verbatim>\<open>closed\<close>, \<^verbatim>\<open>openTickets\<close> the number of all other
  tickets (so a status "Closed" counts as open), and \<^verbatim>\<open>ticketCount\<close> is their sum.
\<close>

theorem C7_open_resolved_counts:
  "resolvedTickets (processTickets clock req)
     = card {i. i < length (tickets req) \<and> isResolved (tickets req ! i)}
   \<and> openTickets (processTickets clock req)
     = card {i. i < length (tickets req) \<and> \<not> isResolved (tickets req ! i)}
   \<and> ticketCount (processTickets clock req)
     = openTickets (processTickets clock req) + resolvedTickets (processTickets clock req)"
proof -
  let ?ts = "tickets req"
  have "(\<lambda>t. status t = Some ''resolved'' \<or> status t = Some ''closed'') = isResolved"
    by (simp add: isResolved_def fun_eq_iff)
  then have closed: "resolvedTickets (processTickets clock req) = length (filter isResolved ?ts)"
    by (simp add: processTickets_def)
  have "(\<lambda>t. status t \<noteq> Some ''resolved'' \<and> status t \<noteq> Some ''closed'')
          = (\<lambda>t. \<not> isResolved t)"
    by (simp add: isResolved_def fun_eq_iff)
  then have opn: "openTickets (processTickets clock req)
                    = length (filter (\<lambda>t. \<not> isResolved t) ?ts)"
    by (simp add: processTickets_def)
  have total: "ticketCount (processTickets clock req) = length ?ts"
    by (simp add: processTickets_def)
  from closed opn total sum_length_filter_compl [of isResolved ?ts]
  show ?thesis
    by (simp add: length_filter_conv_card)
qed

theorem C7_open_resolved_counts_witness:
  "resolvedTickets (processTickets 0 sampleRequest) = 1
   \<and> openTickets (processTickets 0 sampleRequest) = 2
   \<and> ticketCount (processTickets 0 sampleRequest) = 3
   \<and> card {i. i < length (tickets sampleRequest) \<and> isResolved (tickets sampleRequest ! i)} = 1"
proof -
  have "resolvedTickets (processTickets 0 sampleRequest) = 1"
    and "openTickets (processTickets 0 sampleRequest) = 2"
    and "ticketCount (processTickets 0 sampleRequest) = 3"
    by code_simp+
  with C7_open_resolved_counts [of 0 sampleRequest] show ?thesis by simp
qed

text \<open>
  C8. When the store rejects the update with an error, \<^verbatim>\<open>storeMetrics\<close> raises: it
  returns no item, leaves the table as it was, and has sent exactly one request (it does
  not retry). For the codes \<^verbatim>\<open>ResourceNotFoundException\<close>,
  \<^verbatim>\<open>ProvisionedThroughputExceededException\<close> and \<^verbatim>\<open>ValidationException\<close> it raises
  a new error whose message names the failure (with the table name, respectively the
  store's message, for the first and the third); every other error is raised unchanged.
  In each case the kind of the store's failure can be read off what is raised.
\<close>

theorem C8_store_failure_surfaced:
  assumes "faults db = Some err # rest"
  shows "\<exists>t db'.
           storeMetrics e m db = (Inl t, db')
         \<and> items db' = items db
         \<and> requests db' = requests db + 1
         \<and> faults db' = rest
         \<and> seenKind t = kindOf err
         \<and> t = (case kindOf err of
                  NotFound \<Rightarrow>
                    NewError (''DynamoDB table '' @ [CHR 0x27] @ tableName e @ [CHR 0x27]
                                @ '' not found'')
                | CapacityExceeded \<Rightarrow>
                    NewError ''DynamoDB write capacity exceeded. Please try again later.''
                | ValidationFailure \<Rightarrow>
                    NewError (''DynamoDB validation error: '' @ message err)
                | OtherFailure c \<Rightarrow> Rethrown err)"
proof -
  let ?db' = "db\<lparr>faults := rest, requests := requests db + 1\<rparr>"
  have upd: "dynamoUpdate (updateParams e m) db = (Inl err, ?db')"
    using assms by (simp add: dynamoUpdate_def Let_def)
  consider (nf) "code err = ''ResourceNotFoundException''"
    | (cap) "code err = ''ProvisionedThroughputExceededException''"
    | (val) "code err = ''ValidationException''"
    | (other) "code err \<noteq> ''ResourceNotFoundException''"
        "code err \<noteq> ''ProvisionedThroughputExceededException''"
        "code err \<noteq> ''ValidationException''"
    by blast
  then show ?thesis
  proof cases
    case nf
    then show ?thesis
      by (simp add: storeMetrics_def Let_def upd kindOf_def seenKind_def updateParams_sel)
  next
    case cap
    then show ?thesis
      by (simp add: storeMetrics_def Let_def upd kindOf_def seenKind_def)
  next
    case val
    then show ?thesis
      by (simp add: storeMetrics_def Let_def upd kindOf_def seenKind_def)
  next
    case other
    then show ?thesis
      by (simp add: storeMetrics_def Let_def upd kindOf_def seenKind_def)
  qed
qed

theorem C8_store_failure_surfaced_witness:
  "faults (emptyStore\<lparr>faults := [Some throttled]\<rparr>) = Some throttled # []
   \<and> kindOf throttled = CapacityExceeded
   \<and> storeMetrics firstCall (processTickets 5 sampleRequest) (emptyStore\<lparr>faults := [Some throttled]\<rparr>)
       = (Inl (NewError ''DynamoDB write capacity exceeded. Please try again later.''),
          emptyStore\<lparr>faults := [], requests := 1\<rparr>)"
proof -
  let ?db = "emptyStore\<lparr>faults := [Some throttled]\<rparr>"
  have f: "faults ?db = Some throttled # []" by simp
  have k: "kindOf throttled = CapacityExceeded"
    by (simp add: kindOf_def throttled_def)
  from C8_store_failure_surfaced [OF f, of firstCall "processTickets 5 sampleRequest"]
  obtain t db' where
    r: "storeMetrics firstCall (processTickets 5 sampleRequest) ?db = (Inl t, db')"
    and d: "items db' = items ?db" "requests db' = requests ?db + 1" "faults db' = []"
    and t: "t = NewError ''DynamoDB write capacity exceeded. Please try again later.''"
    by (auto simp: k)
  from d have "db' = emptyStore\<lparr>faults := [], requests := 1\<rparr>"
    by (cases db') (simp add: emptyStore_def)
  with r t f k show ?thesis by simp
qed



text \<open>
  C10. The entries of \<^verbatim>\<open>severityDistribution\<close> and \<^verbatim>\<open>slaCompliance\<close> under the
  four canonical severities lie between 0 and 100 (\<open>canonical_entries_in_range\<close>), but
  \<^verbatim>\<open>severityDistribution\<close> can hold a fifth entry: the test
  \<^verbatim>\<open>distribution[severity] !== undefined\<close> also passes for the inherited name
  \<^verbatim>\<open>constructor\<close>, the increment then stores \<open>NaN\<close> under that name as an own
  property, and the percentage loop keeps it \<open>NaN\<close>.
\<close>

theorem C10_inherited_name:
  "severityDistribution (processTickets 0
       \<lparr> request.projectId = ''PROJ'', tickets = [ticketA, ticketOddName] \<rparr>)
     = [(''low'', Number (Fin 0)), (''medium'', Number (Fin 0)), (''high'', Number (Fin 50)),
        (''critical'', Number (Fin 0)), (''constructor'', Number NaN)]
   \<and> slaCompliance (processTickets 0
       \<lparr> request.projectId = ''PROJ'', tickets = [ticketA, ticketOddName] \<rparr>)
     = [(''low'', Number (Fin 0)), (''medium'', Number (Fin 0)), (''high'', Number (Fin 100)),
        (''critical'', Number (Fin 0))]"
  by code_simp

end
